theory Spec2Isabelle
  imports Main "HOL-Library.Word"
begin

unbundle bit_operations_syntax

section \<open>Memory regions (core/emulator32bit/src/Memory.cpp)\<close>

text \<open>
  The emulator's \<^verbatim>\<open>word\<close> is an unsigned 32-bit integer (\<open>word32\<close> here) and \<^verbatim>\<open>byte\<close> an
  unsigned 8-bit one. \<^verbatim>\<open>int\<close> parameters and loop counters are modelled as
  \<open>int\<close>; the only arithmetic on them is the conversion to \<^verbatim>\<open>word\<close> in
  \<^verbatim>\<open>address + num_bytes - 1\<close> and \<^verbatim>\<open>address + i\<close>, which wraps modulo
  \<open>2 ^ 32\<close> (\<open>word_of_int\<close>).
\<close>

type_synonym word32 = "32 word"
type_synonym byte = "8 word"

text \<open>
  The exception records are passed by reference and overwritten in place; the
  model takes the record and returns the updated one. \<open>AOK\<close> stands for the
  no-fault member of the enumerations declared in Memory.h.
\<close>

datatype MemoryReadException_Type = AOK | OUT_OF_BOUNDS_ADDRESS

datatype MemoryWriteException_Type = AOK | OUT_OF_BOUNDS_ADDRESS | ACCESS_DENIED

record MemoryReadException =
  type :: MemoryReadException_Type
  address :: word32

record MemoryWriteException =
  type :: MemoryWriteException_Type
  address :: word32
  "value" :: word32
  num_bytes :: int

text \<open>
  \<^verbatim>\<open>data\<close> is a heap array of \<^verbatim>\<open>mem_size\<close> bytes. The code indexes it with
  the absolute address \<^verbatim>\<open>(word) (address + i)\<close>, not with the offset from
  \<^verbatim>\<open>lo_addr\<close>; an index outside the array is undefined behaviour in C++
  and is the result \<open>None\<close> here.
\<close>

record Memory =
  mem_size :: word32
  data :: "byte list"
  lo_addr :: word32
  hi_addr :: word32

definition Memory_in_bounds :: "Memory \<Rightarrow> word32 \<Rightarrow> bool" where
  "Memory_in_bounds m a \<longleftrightarrow> lo_addr m \<le> a \<and> a \<le> hi_addr m"

text \<open>The body of the \<^verbatim>\<open>for\<close> loop of \<^verbatim>\<open>Memory::read\<close>, from counter \<open>i\<close>.\<close>

function read_loop :: "byte list \<Rightarrow> word32 \<Rightarrow> int \<Rightarrow> int \<Rightarrow> word32 \<Rightarrow> word32 option" where
  "read_loop d a n i v =
     (if i < n then
        (if unat (a + word_of_int i) < length d
         then read_loop d a n (i + 1) (push_bit 8 v + ucast (d ! unat (a + word_of_int i)))
         else None)
      else Some v)"
  by pat_completeness auto
termination
  by (relation "measure (\<lambda>(d, a, n, i, v). nat (n - i))") auto

declare read_loop.simps [simp del]

definition Memory_read :: "Memory \<Rightarrow> word32 \<Rightarrow> MemoryReadException \<Rightarrow> int
    \<Rightarrow> (word32 \<times> MemoryReadException) option" where
  "Memory_read m a e n =
     (if \<not> Memory_in_bounds m a \<or> \<not> Memory_in_bounds m (a + word_of_int n - 1)
      then Some (0, e\<lparr>MemoryReadException.type := MemoryReadException_Type.OUT_OF_BOUNDS_ADDRESS,
                       MemoryReadException.address := a\<rparr>)
      else map_option (\<lambda>v. (v, e)) (read_loop (data m) a n 0 0))"

text \<open>The body of the \<^verbatim>\<open>for\<close> loop of \<^verbatim>\<open>Memory::write\<close>, from counter \<open>i\<close>.\<close>

function write_loop :: "byte list \<Rightarrow> word32 \<Rightarrow> int \<Rightarrow> int \<Rightarrow> word32 \<Rightarrow> byte list option" where
  "write_loop d a n i v =
     (if i < n then
        (if unat (a + word_of_int i) < length d
         then write_loop (d[unat (a + word_of_int i) := ucast (v AND 0xFF)]) a n (i + 1) (drop_bit 8 v)
         else None)
      else Some d)"
  by pat_completeness auto
termination
  by (relation "measure (\<lambda>(d, a, n, i, v). nat (n - i))") auto

declare write_loop.simps [simp del]

definition Memory_write :: "Memory \<Rightarrow> word32 \<Rightarrow> word32 \<Rightarrow> MemoryWriteException \<Rightarrow> int
    \<Rightarrow> (Memory \<times> MemoryWriteException) option" where
  "Memory_write m a v e n =
     (if \<not> Memory_in_bounds m a \<or> \<not> Memory_in_bounds m (a + word_of_int n - 1)
      then Some (m, e\<lparr>MemoryWriteException.type := MemoryWriteException_Type.OUT_OF_BOUNDS_ADDRESS,
                       MemoryWriteException.address := a,
                       MemoryWriteException.value := v,
                       MemoryWriteException.num_bytes := n\<rparr>)
      else map_option (\<lambda>d. (m\<lparr>data := d\<rparr>, e)) (write_loop (data m) a n 0 v))"

text \<open>\<^verbatim>\<open>ROM::write\<close> overrides \<^verbatim>\<open>Memory::write\<close>; reads of a ROM are \<^verbatim>\<open>Memory::read\<close>.\<close>

definition ROM_write :: "Memory \<Rightarrow> word32 \<Rightarrow> word32 \<Rightarrow> MemoryWriteException \<Rightarrow> int
    \<Rightarrow> Memory \<times> MemoryWriteException" where
  "ROM_write m a v e n =
     (m, e\<lparr>MemoryWriteException.type := MemoryWriteException_Type.ACCESS_DENIED,
            MemoryWriteException.address := a,
            MemoryWriteException.value := v,
            MemoryWriteException.num_bytes := n\<rparr>)"

text \<open>Concrete regions and exception records used to run the operations.\<close>

definition ram4 :: Memory where
  "ram4 = \<lparr>mem_size = 4, data = [0, 0, 0, 0], lo_addr = 0, hi_addr = 3\<rparr>"

definition no_write_exception :: MemoryWriteException where
  "no_write_exception = \<lparr>MemoryWriteException.type = MemoryWriteException_Type.AOK,
     MemoryWriteException.address = 0, MemoryWriteException.value = 0, MemoryWriteException.num_bytes = 0\<rparr>"

definition no_read_exception :: MemoryReadException where
  "no_read_exception = \<lparr>MemoryReadException.type = MemoryReadException_Type.AOK,
     MemoryReadException.address = 0\<rparr>"

definition rom4 :: Memory where
  "rom4 = \<lparr>mem_size = 4, data = [0xAA, 0xBB, 0xCC, 0xDD], lo_addr = 0, hi_addr = 3\<rparr>"

section \<open>The software-interrupt gateway (core/emulator32bit/src/software_interrupt.cpp)\<close>

text \<open>
  The handlers are member functions of \<^verbatim>\<open>Emulator32bit\<close>. The class and the
  helpers they call are declared in headers that are not among the sources, so
  the members the handlers use are the fields of the record below:
  \<^verbatim>\<open>system_bus.read_byte\<close> and \<^verbatim>\<open>read_reg\<close> (both also update the
  exception bundle \<open>'x\<close> they are handed by reference), the processor state
  word \<^verbatim>\<open>_pstate\<close>, the helpers \<^verbatim>\<open>check_cond\<close>, \<^verbatim>\<open>bitfield_u32\<close> and
  \<^verbatim>\<open>test_bit\<close>, and the constants \<^verbatim>\<open>NR\<close>, \<^verbatim>\<open>N_FLAG\<close>, \<^verbatim>\<open>Z_FLAG\<close>,
  \<^verbatim>\<open>C_FLAG\<close>, \<^verbatim>\<open>V_FLAG\<close>.
\<close>

record 'x Emulator32bit =
  system_bus_read_byte :: "word32 \<Rightarrow> 'x \<Rightarrow> byte \<times> 'x"
  read_reg :: "byte \<Rightarrow> 'x \<Rightarrow> word32 \<times> 'x"
  pstate :: word32
  check_cond :: "word32 \<Rightarrow> byte \<Rightarrow> bool"
  bitfield_u32 :: "word32 \<Rightarrow> nat \<Rightarrow> nat \<Rightarrow> word32"
  test_bit :: "word32 \<Rightarrow> byte \<Rightarrow> bool"
  NR :: byte
  N_FLAG :: byte
  Z_FLAG :: byte
  C_FLAG :: byte
  V_FLAG :: byte

text \<open>
  What a handler writes to the console, kept as the arguments of its format
  string, and the ways a handler stops the emulator. \<^verbatim>\<open>EXPECT_TRUE_SS\<close> and
  \<^verbatim>\<open>ERROR_SS\<close> are macros of util/loggerv2.h; a failed expectation and an
  \<^verbatim>\<open>ERROR_SS\<close> are the \<open>Inl\<close> results of the handlers.
\<close>

datatype console =
    Print_state
  | Printf_REG byte word32
  | Printf_MEM word32 word32
  | Printf_PSTATE bool bool bool bool
  | Cout string
  | Cerr string

datatype fatal =
    Expected_register byte word32 word32 word32
  | Expected_memory word32 word32 word32 word32
  | Expected_PSTATE byte bool bool
  | INVALID_SYSCALL_NUMBER word32

definition emu_print :: "'x Emulator32bit \<Rightarrow> 'x \<Rightarrow> fatal + console list \<times> 'x" where
  "emu_print emu x = Inr ([Print_state], x)"

definition emu_printr :: "'x Emulator32bit \<Rightarrow> byte \<Rightarrow> 'x \<Rightarrow> fatal + console list \<times> 'x" where
  "emu_printr emu reg_id x =
     (case read_reg emu reg_id x of (v, x') \<Rightarrow> Inr ([Printf_REG reg_id v], x'))"

text \<open>
  The two loops that \<^verbatim>\<open>_emu_printm\<close> and \<^verbatim>\<open>_emu_assertm\<close> both contain:
  the \<^verbatim>\<open>little_endian\<close> branch counts a \<^verbatim>\<open>byte i\<close> up from 0 while
  \<^verbatim>\<open>i < size\<close>, the other branch counts an \<^verbatim>\<open>int i\<close> down from
  \<^verbatim>\<open>size - 1\<close> while \<^verbatim>\<open>i >= 0\<close>.
\<close>

function assemble_ascending ::
    "'x Emulator32bit \<Rightarrow> word32 \<Rightarrow> byte \<Rightarrow> byte \<Rightarrow> word32 \<Rightarrow> 'x \<Rightarrow> word32 \<times> 'x" where
  "assemble_ascending emu mem_addr sz i val x =
     (if i < sz then
        (case system_bus_read_byte emu (mem_addr + ucast i) x of
           (b, x') \<Rightarrow> assemble_ascending emu mem_addr sz (i + 1) (push_bit 8 val + ucast b) x')
      else (val, x))"
  by pat_completeness auto
termination
proof (relation "measure (\<lambda>(emu, mem_addr, sz, i, val, x). unat sz - unat i)")
  fix emu :: "'x Emulator32bit" and mem_addr :: word32 and sz i :: byte and val :: word32
    and x :: 'x and xa :: "byte \<times> 'x" and b :: byte and x' :: 'x
  assume "i < sz"
  then have "unat (i + 1) = unat i + 1"
    by (metis (no_types, lifting) add.commute add_0 inc_i inc_le
      unat_plus_simple unsigned_0 unsigned_1 word_gt_0)
  moreover from \<open>i < sz\<close> have "unat i < unat sz"
    by (simp add: word_less_nat_alt)
  ultimately have "unat (i + 1) = unat i + 1" and "unat i < unat sz" .
  then show "((emu, mem_addr, sz, i + 1, push_bit 8 val + ucast b, x'), (emu, mem_addr, sz, i, val, x))
      \<in> measure (\<lambda>(emu, mem_addr, sz, i, val, x). unat sz - unat i)"
    by simp
qed simp

declare assemble_ascending.simps [simp del]

function assemble_descending ::
    "'x Emulator32bit \<Rightarrow> word32 \<Rightarrow> int \<Rightarrow> word32 \<Rightarrow> 'x \<Rightarrow> word32 \<times> 'x" where
  "assemble_descending emu mem_addr i val x =
     (if i \<ge> 0 then
        (case system_bus_read_byte emu (mem_addr + word_of_int i) x of
           (b, x') \<Rightarrow> assemble_descending emu mem_addr (i - 1) (push_bit 8 val + ucast b) x')
      else (val, x))"
  by pat_completeness auto
termination
  by (relation "measure (\<lambda>(emu, mem_addr, i, val, x). nat (i + 1))") auto

declare assemble_descending.simps [simp del]

definition emu_printm ::
    "'x Emulator32bit \<Rightarrow> word32 \<Rightarrow> byte \<Rightarrow> bool \<Rightarrow> 'x \<Rightarrow> fatal + console list \<times> 'x" where
  "emu_printm emu mem_addr sz little_endian x =
     (case (if little_endian then assemble_ascending emu mem_addr sz 0 0 x
            else assemble_descending emu mem_addr (uint sz - 1) 0 x) of
        (val, x') \<Rightarrow> Inr ([Printf_MEM mem_addr val], x'))"

definition emu_printp :: "'x Emulator32bit \<Rightarrow> 'x \<Rightarrow> fatal + console list \<times> 'x" where
  "emu_printp emu x =
     Inr ([Printf_PSTATE (test_bit emu (pstate emu) (N_FLAG emu)) (test_bit emu (pstate emu) (Z_FLAG emu))
             (test_bit emu (pstate emu) (C_FLAG emu)) (test_bit emu (pstate emu) (V_FLAG emu))], x)"

definition emu_assertr ::
    "'x Emulator32bit \<Rightarrow> byte \<Rightarrow> word32 \<Rightarrow> word32 \<Rightarrow> 'x \<Rightarrow> fatal + console list \<times> 'x" where
  "emu_assertr emu reg_id min_value max_value x =
     (case read_reg emu reg_id x of
        (val, x') \<Rightarrow>
          if val \<ge> min_value \<and> val \<le> max_value then Inr ([], x')
          else Inl (Expected_register reg_id min_value max_value val))"

definition emu_assertm ::
    "'x Emulator32bit \<Rightarrow> word32 \<Rightarrow> byte \<Rightarrow> bool \<Rightarrow> word32 \<Rightarrow> word32 \<Rightarrow> 'x
      \<Rightarrow> fatal + console list \<times> 'x" where
  "emu_assertm emu mem_addr sz little_endian min_value max_value x =
     (case (if little_endian then assemble_ascending emu mem_addr sz 0 0 x
            else assemble_descending emu mem_addr (uint sz - 1) 0 x) of
        (val, x') \<Rightarrow>
          if val \<ge> min_value \<and> val \<le> max_value then Inr ([], x')
          else Inl (Expected_memory mem_addr min_value max_value val))"

definition emu_assertp ::
    "'x Emulator32bit \<Rightarrow> byte \<Rightarrow> bool \<Rightarrow> 'x \<Rightarrow> fatal + console list \<times> 'x" where
  "emu_assertp emu p_state_id expected_value x =
     (let val = test_bit emu (pstate emu) p_state_id in
      if val = expected_value then Inr ([], x)
      else Inl (Expected_PSTATE p_state_id expected_value val))"

text \<open>
  \<^verbatim>\<open>_emu_log\<close> and \<^verbatim>\<open>_emu_err\<close> read bytes until the bus returns 0, each byte
  twice (once in the loop condition, once in the body). Nothing bounds the
  loop, so the model is a partial function: \<open>None\<close> is a loop that never ends.
\<close>

partial_function (option) emu_log_loop ::
    "'x Emulator32bit \<Rightarrow> word32 \<Rightarrow> string \<Rightarrow> 'x \<Rightarrow> (string \<times> 'x) option" where
  "emu_log_loop emu str msg x =
     (case system_bus_read_byte emu str x of
        (b, x1) \<Rightarrow>
          if b \<noteq> 0 then
            (case system_bus_read_byte emu str x1 of
               (c, x2) \<Rightarrow> emu_log_loop emu (str + 1) (msg @ [char_of (unat c)]) x2)
          else Some (msg, x1))"

definition emu_log :: "'x Emulator32bit \<Rightarrow> word32 \<Rightarrow> 'x \<Rightarrow> (fatal + console list \<times> 'x) option" where
  "emu_log emu str x =
     map_option (\<lambda>(msg, x'). Inr ([Cout (msg @ [CHR 0x0A])], x')) (emu_log_loop emu str [] x)"

definition emu_err :: "'x Emulator32bit \<Rightarrow> word32 \<Rightarrow> 'x \<Rightarrow> (fatal + console list \<times> 'x) option" where
  "emu_err emu err x =
     map_option (\<lambda>(msg, x'). Inr ([Cerr (msg @ [CHR 0x0A])], x')) (emu_log_loop emu err [] x)"

text \<open>
  \<^verbatim>\<open>_swi\<close>: the \<^verbatim>\<open>switch\<close> over the syscall number read from register
  \<^verbatim>\<open>NR\<close>, case by case in the order of the source. The arguments are
  converted as the C++ calls convert them: a \<^verbatim>\<open>word\<close> passed for a
  \<^verbatim>\<open>byte\<close> is truncated, one passed for a \<^verbatim>\<open>bool\<close> is true when non-zero.
  The \<^verbatim>\<open>DEBUG_SS\<close> log line at the start of the function is left out.
\<close>

definition swi :: "'x Emulator32bit \<Rightarrow> word32 \<Rightarrow> 'x \<Rightarrow> fatal + console list \<times> 'x" where
  "swi emu instr x =
     (let cond = (ucast (bitfield_u32 emu instr 22 4) :: byte) in
      if \<not> check_cond emu (pstate emu) cond then Inr ([], x)
      else
        (case read_reg emu (NR emu) x of (id', x0) \<Rightarrow>
         case read_reg emu 0 x0 of (arg0, x1) \<Rightarrow>
         case read_reg emu 1 x1 of (arg1, x2) \<Rightarrow>
         case read_reg emu 2 x2 of (arg2, x3) \<Rightarrow>
         case read_reg emu 3 x3 of (arg3, x4) \<Rightarrow>
         case read_reg emu 4 x4 of (arg4, x5) \<Rightarrow>
         case read_reg emu 5 x5 of (arg5, x6) \<Rightarrow>
           if id' = 1000 then emu_print emu x6
           else if id' = 1001 then emu_printr emu (ucast arg0) x6
           else if id' = 1002 then emu_printm emu arg0 (ucast arg1) (arg2 \<noteq> 0) x6
           else if id' = 1003 then emu_printp emu x6
           else if id' = 1010 then emu_assertr emu (ucast arg0) arg1 arg2 x6
           else if id' = 1011 then emu_assertm emu arg0 (ucast arg1) (arg2 \<noteq> 0) arg3 arg4 x6
           else if id' = 1012 then emu_assertp emu (ucast arg0) (arg1 \<noteq> 0) x6
           else Inl (INVALID_SYSCALL_NUMBER id')))"

text \<open>
  An emulator to run the handlers on: a bus that holds \<open>0x12\<close> at address 0,
  \<open>0x34\<close> at address 1 and 0 elsewhere, a register file whose syscall
  register holds 1020, and a condition check that always passes.
\<close>

definition emu_test :: "unit Emulator32bit" where
  "emu_test = \<lparr>
     system_bus_read_byte = (\<lambda>a x. (if a = 0 then 0x12 else if a = 1 then 0x34 else 0, x)),
     read_reg = (\<lambda>r x. (if r = 8 then 1020 else 0, x)),
     pstate = 0,
     check_cond = (\<lambda>p c. True),
     bitfield_u32 = (\<lambda>w lo n. take_bit n (drop_bit lo w)),
     test_bit = (\<lambda>w b. bit w (unat b)),
     NR = 8, N_FLAG = 31, Z_FLAG = 30, C_FLAG = 29, V_FLAG = 28\<rparr>"

section \<open>Tokens (src/AssemblerV3/Tokenizer.h)\<close>

text \<open>
  \<^verbatim>\<open>Tokenizer::Type\<close>. The members of the C++ enumeration are grouped here by
  their common prefix: \<^verbatim>\<open>PREPROCESSOR_IFDEF\<close> is \<open>PREPROCESSOR IFDEF\<close>,
  \<^verbatim>\<open>ASSEMBLER_SCEND\<close> is \<open>ASSEMBLER SCEND\<close>, \<^verbatim>\<open>LITERAL_STRING\<close> is
  \<open>LITERAL STRING\<close>, and so on; every member of the enumeration is one value of
  \<open>Type\<close> and the other way round.
\<close>

datatype preprocessor_directive =
    INCLUDE
  | MACRO | MACRET | MACEND | INVOKE
  | DEFINE | UNDEF
  | IFDEF | IFNDEF
  | ELSE | ELSEDEF | ELSENDEF
  | ENDIF

datatype variable_type =
    BYTE | DBYTE | WORD | DWORD | CHAR | STRING | FLOAT | DOUBLE | BOOLEAN

datatype assembler_directive =
    GLOBAL | EXTERN | EQU | ORG | SCOPE | SCEND
  | DB_LOW_ENDIAN | DDB_LOW_ENDIAN | DDB_HIGH_ENDIAN
  | DW_LOW_ENDIAN | DW_HIGH_ENDIAN | DDW_LOW_ENDIAN | DDW_HIGH_ENDIAN
  | ASCII | ASCIZ | ADVANCE | FILL | SPACE | CHECKPC | ALIGN
  | BSS | BSS_ABSOLUTE | DATA | DATA_ABSOLUTE | CODE | CODE_ABSOLUTE | STOP

datatype literal =
    NUMBER_BINARY | NUMBER_OCTAL | NUMBER_DECIMAL | NUMBER_HEXADECIMAL | CHAR | STRING

datatype operator =
    ADDITION | SUBTRACTION | MULTIPLICATION | DIVISION | MODULUS
  | BITWISE_LEFT_SHIFT | BITWISE_RIGHT_SHIFT
  | BITWISE_XOR | BITWISE_AND | BITWISE_OR | BITWISE_COMPLEMENT
  | LOGICAL_NOT | LOGICAL_EQUAL | LOGICAL_NOT_EQUAL
  | LOGICAL_LESS_THAN | LOGICAL_GREATER_THAN
  | LOGICAL_LESS_THAN_OR_EQUAL | LOGICAL_GREATER_THAN_OR_EQUAL
  | LOGICAL_OR | LOGICAL_AND

datatype Type =
    UNKNOWN
  | TEXT | WHITESPACE_SPACE | WHITESPACE_TAB | WHITESPACE_NEWLINE | WHITESPACE
  | COMMENT_SINGLE_LINE | COMMENT_MULTI_LINE
  | PREPROCESSOR preprocessor_directive
  | VARIABLE_TYPE variable_type
  | ASSEMBLER assembler_directive
  | NUMBER_SIGN
  | LITERAL literal
  | SYMBOL
  | COLON | COMMA | SEMICOLON
  | OPEN_PARANTHESIS | CLOSE_PARANTHESIS | OPEN_BRACKET | CLOSE_BRACKET | OPEN_BRACE | CLOSE_BRACE
  | OPERATOR operator


text \<open>\<^verbatim>\<open>Argument\<close>, a parameter of a macro: its name and its declared type.\<close>

datatype Argument = Argument (name: string) (type: Type)

text \<open>\<^verbatim>\<open>Tokenizer::Token\<close> and its constructor \<^verbatim>\<open>Token(type, value)\<close>.\<close>

record Token =
  type :: Type
  "value" :: string

definition Token :: "Type \<Rightarrow> string \<Rightarrow> Token" where
  "Token t v = \<lparr>type = t, value = v\<rparr>"

declare Token_def [simp]

definition PREPROCESSOR_DIRECTIVES :: "Type set" where
  "PREPROCESSOR_DIRECTIVES =
     {PREPROCESSOR INCLUDE, PREPROCESSOR MACRO, PREPROCESSOR MACRET, PREPROCESSOR MACEND,
      PREPROCESSOR INVOKE, PREPROCESSOR DEFINE, PREPROCESSOR UNDEF, PREPROCESSOR IFDEF,
      PREPROCESSOR IFNDEF, PREPROCESSOR ELSE, PREPROCESSOR ELSEDEF, PREPROCESSOR ELSENDEF,
      PREPROCESSOR ENDIF}"

definition VARIABLE_TYPES :: "Type set" where
  "VARIABLE_TYPES =
     {VARIABLE_TYPE BYTE, VARIABLE_TYPE DBYTE, VARIABLE_TYPE WORD, VARIABLE_TYPE DWORD,
      VARIABLE_TYPE variable_type.CHAR, VARIABLE_TYPE variable_type.STRING,
      VARIABLE_TYPE FLOAT, VARIABLE_TYPE DOUBLE, VARIABLE_TYPE BOOLEAN}"

text \<open>
  The entries of \<^verbatim>\<open>TOKEN_SPEC\<close> whose kind is a preprocessor directive, in the
  order of the table. Each pattern there is \<^verbatim>\<open>^\<close>, the spelling, and the
  lookahead \<^verbatim>\<open>(?=\s)\<close>: it matches an input that starts with the spelling
  followed by a whitespace character, which stays unconsumed.
\<close>

definition TOKEN_SPEC_PREPROCESSOR :: "(string \<times> Type) list" where
  "TOKEN_SPEC_PREPROCESSOR =
     [(''#include'', PREPROCESSOR INCLUDE),
      (''#macro'', PREPROCESSOR MACRO),
      (''#macret'', PREPROCESSOR MACRET),
      (''#macend'', PREPROCESSOR MACEND),
      (''#invoke'', PREPROCESSOR INVOKE),
      (''#define'', PREPROCESSOR DEFINE),
      (''#undef'', PREPROCESSOR UNDEF),
      (''#ifdef'', PREPROCESSOR IFDEF),
      (''#ifndef'', PREPROCESSOR IFNDEF),
      (''#else'', PREPROCESSOR ELSE),
      (''#elsedef'', PREPROCESSOR ELSEDEF),
      (''#elsendef'', PREPROCESSOR ELSENDEF),
      (''#endif'', PREPROCESSOR ENDIF)]"

text \<open>The characters that \<^verbatim>\<open>\s\<close> matches.\<close>

definition is_space :: "char \<Rightarrow> bool" where
  "is_space c \<longleftrightarrow> c \<in> {CHR '' '', CHR 0x09, CHR 0x0A, CHR 0x0B, CHR 0x0C, CHR 0x0D}"

definition matches_directive :: "string \<Rightarrow> string \<Rightarrow> bool" where
  "matches_directive spelling input \<longleftrightarrow>
     take (length spelling) input = spelling
     \<and> (case drop (length spelling) input of [] \<Rightarrow> False | c # _ \<Rightarrow> is_space c)"

text \<open>The first directive entry of the table that matches at the start of the input.\<close>

definition directive_token :: "string \<Rightarrow> Token option" where
  "directive_token input =
     map_option (\<lambda>(spelling, t). Token t spelling)
       (find (\<lambda>(spelling, t). matches_directive spelling input) TOKEN_SPEC_PREPROCESSOR)"

section \<open>The preprocessor (src/AssemblerV3/Preprocess/PreprocessorV3.cpp)\<close>

text \<open>
  \<^verbatim>\<open>Macro\<close> with the members the handlers use. A macro with no return type
  has \<^verbatim>\<open>returnType == Tokenizer::UNKNOWN\<close>.
\<close>

record Macro =
  name :: string
  arguments :: "Argument list"
  returnType :: Type
  "definition" :: "Token list"

text \<open>
  The members of \<^verbatim>\<open>Preprocessor\<close> that the handlers read and write.
  \<^verbatim>\<open>m_symbols\<close> is a \<^verbatim>\<open>std::map\<close> from the symbol to its replacement
  tokens, \<^verbatim>\<open>m_macroStack\<close> a \<^verbatim>\<open>std::stack\<close> whose top is the head of the list,
  and \<^verbatim>\<open>m_writer\<close> is given by the text written to the output file so far.
\<close>

record Preprocessor =
  m_tokens :: "Token list"
  m_symbols :: "string \<rightharpoonup> Token list"
  m_macroStack :: "(string \<times> Macro) list"
  m_writer :: string

text \<open>
  Every \<^verbatim>\<open>log(ERROR, ...)\<close> and every failed \<^verbatim>\<open>EXPECT_TRUE(..., ERROR, ...)\<close>
  abandons preprocessing; it is the \<open>Inl\<close> result, with the message.
  \<open>ERROR_default\<close> is the message that the header declares as the default
  argument of \<^verbatim>\<open>consume\<close> and \<^verbatim>\<open>isToken\<close>; \<open>out_of_range\<close> is the
  exception of \<^verbatim>\<open>std::map::at\<close>.
\<close>

datatype error = ERROR string | ERROR_default | out_of_range

definition and_then :: "error + 'a \<Rightarrow> ('a \<Rightarrow> error + 'b) \<Rightarrow> error + 'b" where
  "and_then m f = (case m of Inl e \<Rightarrow> Inl e | Inr a \<Rightarrow> f a)"

text \<open>
  \<^verbatim>\<open>skipTokens(tokenI, regex)\<close> is only called with the character classes
  \<^verbatim>\<open>[ \t]\<close> and \<^verbatim>\<open>[ \t\n]\<close>; \<^verbatim>\<open>std::regex_match\<close> then holds for a token
  whose text is exactly one character of the class, given here as a set.
\<close>

function skipTokens :: "Token list \<Rightarrow> nat \<Rightarrow> char set \<Rightarrow> nat" where
  "skipTokens ts tokenI cls =
     (if tokenI < length ts \<and> (\<exists>c \<in> cls. value (ts ! tokenI) = [c])
      then skipTokens ts (tokenI + 1) cls else tokenI)"
  by pat_completeness auto
termination
  by (relation "measure (\<lambda>(ts, tokenI, cls). length ts - tokenI)") auto

declare skipTokens.simps [simp del]

definition space_tab :: "char set" where
  "space_tab = {CHR '' '', CHR 0x09}"

definition space_tab_newline :: "char set" where
  "space_tab_newline = {CHR '' '', CHR 0x09, CHR 0x0A}"

definition expectToken :: "Token list \<Rightarrow> nat \<Rightarrow> error \<Rightarrow> error + bool" where
  "expectToken ts tokenI errorMsg = (if tokenI < length ts then Inr True else Inl errorMsg)"

definition isToken :: "Token list \<Rightarrow> nat \<Rightarrow> Type set \<Rightarrow> error \<Rightarrow> error + bool" where
  "isToken ts tokenI tokenTypes errorMsg =
     and_then (expectToken ts tokenI errorMsg) (\<lambda>_. Inr (type (ts ! tokenI) \<in> tokenTypes))"

definition consume :: "Token list \<Rightarrow> nat \<Rightarrow> error \<Rightarrow> error + Token \<times> nat" where
  "consume ts tokenI errorMsg =
     and_then (expectToken ts tokenI errorMsg) (\<lambda>_. Inr (ts ! tokenI, tokenI + 1))"

definition consume_expecting :: "Token list \<Rightarrow> nat \<Rightarrow> Type set \<Rightarrow> string \<Rightarrow> error + Token \<times> nat" where
  "consume_expecting ts tokenI expectedTypes errorMsg =
     and_then (expectToken ts tokenI (ERROR errorMsg)) (\<lambda>_.
       if type (ts ! tokenI) \<in> expectedTypes then Inr (ts ! tokenI, tokenI + 1)
       else Inl (ERROR (errorMsg @ '' - Unexpected end of file.'')))"

text \<open>
  The loop \<^verbatim>\<open>while (!isToken(tokenI, types)) tokens.push_back(consume(tokenI));\<close>
  of \<^verbatim>\<open>_define\<close> and \<^verbatim>\<open>_macret\<close>, from the tokens collected so far.
\<close>

function collect_until :: "Token list \<Rightarrow> nat \<Rightarrow> Type set \<Rightarrow> Token list \<Rightarrow> error + Token list \<times> nat" where
  "collect_until ts tokenI tokenTypes tokens =
     (case isToken ts tokenI tokenTypes ERROR_default of
        Inl e \<Rightarrow> Inl e
      | Inr stop \<Rightarrow>
          if \<not> stop then
            (case consume ts tokenI ERROR_default of
               Inl e \<Rightarrow> Inl e
             | Inr (t, i) \<Rightarrow> collect_until ts i tokenTypes (tokens @ [t]))
          else Inr (tokens, tokenI))"
  by pat_completeness auto
termination
  by (relation "measure (\<lambda>(ts, tokenI, tokenTypes, tokens). length ts - tokenI)")
    (auto simp: isToken_def consume_def expectToken_def and_then_def split: if_splits)

declare collect_until.simps [simp del]

text \<open>\<^verbatim>\<open>std::map::insert\<close> leaves the map as it is when the key is already present.\<close>

definition map_insert :: "('k \<rightharpoonup> 'v) \<Rightarrow> 'k \<Rightarrow> 'v \<Rightarrow> ('k \<rightharpoonup> 'v)" where
  "map_insert m k v = (case m k of None \<Rightarrow> m(k \<mapsto> v) | Some _ \<Rightarrow> m)"

definition Preprocessor_define :: "Preprocessor \<Rightarrow> nat \<Rightarrow> error + Preprocessor \<times> nat" where
  "Preprocessor_define st tokenI =
     and_then (consume (m_tokens st) tokenI ERROR_default) (\<lambda>(_, i0).
     let i1 = skipTokens (m_tokens st) i0 space_tab in
     and_then (consume_expecting (m_tokens st) i1 {SYMBOL} ''Preprocessor::_define() - Expected symbol.'') (\<lambda>(t, i2).
     let symbol = value t;
         i3 = skipTokens (m_tokens st) i2 space_tab in
     and_then (collect_until (m_tokens st) i3 {WHITESPACE_NEWLINE} []) (\<lambda>(tokens, i4).
     Inr (st\<lparr>m_symbols := map_insert (m_symbols st) symbol tokens\<rparr>, i4))))"

definition Preprocessor_undefine :: "Preprocessor \<Rightarrow> nat \<Rightarrow> error + Preprocessor \<times> nat" where
  "Preprocessor_undefine st tokenI =
     and_then (consume (m_tokens st) tokenI ERROR_default) (\<lambda>(_, i0).
     let i1 = skipTokens (m_tokens st) i0 space_tab in
     and_then (consume_expecting (m_tokens st) i1 {SYMBOL} ''Preprocessor::_define() - Expected symbol.'') (\<lambda>(t, i2).
     let symbol = value t;
         i3 = skipTokens (m_tokens st) i2 space_tab in
     Inr (st\<lparr>m_symbols := (m_symbols st)(symbol := None)\<rparr>, i3)))"

text \<open>
  \<^verbatim>\<open>string_util::format\<close> (src/util/StringUtil.h): each argument replaces the
  next \<^verbatim>\<open>{...}\<close> of the format string; an argument for which no \<^verbatim>\<open>{\<close>
  followed by \<^verbatim>\<open>}\<close> is left is dropped.
\<close>

primrec str_find :: "char \<Rightarrow> string \<Rightarrow> nat option" where
  "str_find c [] = None"
| "str_find c (x # xs) = (if x = c then Some 0 else map_option Suc (str_find c xs))"

definition str_find_from :: "char \<Rightarrow> string \<Rightarrow> nat \<Rightarrow> nat option" where
  "str_find_from c s pos = map_option (\<lambda>k. pos + k) (str_find c (drop pos s))"

definition format_helper :: "string \<times> string \<Rightarrow> string \<Rightarrow> string \<times> string" where
  "format_helper acc v =
     (case acc of (oss, str) \<Rightarrow>
        (case str_find_from CHR ''{'' str 0 of
           None \<Rightarrow> (oss, str)
         | Some openBracket \<Rightarrow>
             (case str_find_from CHR ''}'' str (openBracket + 1) of
                None \<Rightarrow> (oss, str)
              | Some closeBracket \<Rightarrow> (oss @ take openBracket str @ v, drop (closeBracket + 1) str))))"

definition format :: "string \<Rightarrow> string list \<Rightarrow> string" where
  "format str args = (case foldl format_helper ([], str) args of (oss, str') \<Rightarrow> oss @ str')"

text \<open>
  The loop of \<^verbatim>\<open>_macret\<close> that is meant to skip to the end of the macro's
  scope: it starts at level 0, adds 1 at \<^verbatim>\<open>.scope\<close>, subtracts 1 at
  \<^verbatim>\<open>.scend\<close>, consumes the token, and breaks as soon as the level is 0.
  Inside the loop \<^verbatim>\<open>tokenI < m_tokens.size()\<close> holds, so \<^verbatim>\<open>isToken\<close> and
  \<^verbatim>\<open>consume\<close> cannot fail there. The result is the cursor and the level.
\<close>

function scope_scan :: "Token list \<Rightarrow> nat \<Rightarrow> int \<Rightarrow> nat \<times> int" where
  "scope_scan ts tokenI currentRelativeScopeLevel =
     (if tokenI < length ts then
        (let level = (if type (ts ! tokenI) \<in> {ASSEMBLER SCOPE} then currentRelativeScopeLevel + 1
                      else if type (ts ! tokenI) \<in> {ASSEMBLER SCEND} then currentRelativeScopeLevel - 1
                      else currentRelativeScopeLevel)
         in if level = 0 then (tokenI + 1, level) else scope_scan ts (tokenI + 1) level)
      else (tokenI, currentRelativeScopeLevel))"
  by pat_completeness auto
termination
  by (relation "measure (\<lambda>(ts, tokenI, l). length ts - tokenI)") auto

declare scope_scan.simps [simp del]

text \<open>
  \<^verbatim>\<open>_macret\<close>. \<^verbatim>\<open>Tokenizer::tokenize(std::string)\<close> and the table
  \<^verbatim>\<open>Tokenizer::VARIABLE_TYPE_TO_NAME_MAP\<close> are not among the sources; they are
  the first two arguments.
\<close>

definition Preprocessor_macret ::
    "(string \<Rightarrow> Token list) \<Rightarrow> (Type \<rightharpoonup> string) \<Rightarrow> Preprocessor \<Rightarrow> nat
      \<Rightarrow> error + Preprocessor \<times> nat" where
  "Preprocessor_macret tokenize VARIABLE_TYPE_TO_NAME_MAP st tokenI =
     and_then (consume (m_tokens st) tokenI ERROR_default) (\<lambda>(_, i0).
     let i1 = skipTokens (m_tokens st) i0 space_tab in
     if m_macroStack st = [] then Inl (ERROR ''Preprocessor::_macret() - Unexpected macret token.'')
     else
       let doesMacroReturn = (returnType (snd (hd (m_macroStack st))) \<noteq> UNKNOWN) in
       and_then (if doesMacroReturn then collect_until (m_tokens st) i1 {WHITESPACE_NEWLINE} []
                 else Inr ([], i1)) (\<lambda>(return_value, i2).
       case scope_scan (m_tokens st) i2 0 of (i3, currentRelativeScopeLevel) \<Rightarrow>
         if currentRelativeScopeLevel \<noteq> 0 then Inl (ERROR ''Preprocessor::_macret() - Unclosed scope.'')
         else
           and_then
             (if doesMacroReturn then
                (case VARIABLE_TYPE_TO_NAME_MAP (returnType (snd (hd (m_macroStack st)))) of
                   None \<Rightarrow> Inl out_of_range
                 | Some type_name \<Rightarrow>
                     Inr (take i3 (m_tokens st)
                          @ (tokenize (format ''.equ {} '' [fst (hd (m_macroStack st))])
                             @ return_value
                             @ tokenize (format ('' : {}'' @ [CHR 0x0A]) [type_name]))
                          @ drop i3 (m_tokens st)))
              else Inr (m_tokens st)) (\<lambda>ts'.
           Inr (st\<lparr>m_tokens := ts', m_macroStack := tl (m_macroStack st)\<rparr>, i3))))"

text \<open>
  The token sequence that \<^verbatim>\<open>_invoke\<close> builds in \<^verbatim>\<open>expanded_macro_invoke\<close> and
  inserts at the cursor, once it has parsed the arguments and chosen the macro
  with as many parameters as there are arguments.
\<close>

fun invoke_equates ::
    "(string \<Rightarrow> Token list) \<Rightarrow> (Type \<rightharpoonup> string) \<Rightarrow> Argument list \<Rightarrow> Token list list
      \<Rightarrow> error + Token list" where
  "invoke_equates tokenize VARIABLE_TYPE_TO_NAME_MAP (p # ps) (a # as) =
     (case VARIABLE_TYPE_TO_NAME_MAP (Argument.type p) of
        None \<Rightarrow> Inl out_of_range
      | Some type_name \<Rightarrow>
          and_then (invoke_equates tokenize VARIABLE_TYPE_TO_NAME_MAP ps as) (\<lambda>rest.
            Inr (tokenize (format ''.equ {} '' [Argument.name p]) @ a
                 @ tokenize (format ('' : {}'' @ [CHR 0x0A]) [type_name]) @ rest)))"
| "invoke_equates tokenize VARIABLE_TYPE_TO_NAME_MAP ps as = Inr []"

definition expanded_macro_invoke ::
    "(string \<Rightarrow> Token list) \<Rightarrow> (Type \<rightharpoonup> string) \<Rightarrow> Macro \<Rightarrow> Token list list \<Rightarrow> bool \<Rightarrow> string
      \<Rightarrow> error + Token list" where
  "expanded_macro_invoke tokenize VARIABLE_TYPE_TO_NAME_MAP macro args hasOutput outputSymbol =
     and_then
       (if hasOutput then
          (case VARIABLE_TYPE_TO_NAME_MAP (returnType macro) of
             None \<Rightarrow> Inl out_of_range
           | Some type_name \<Rightarrow>
               Inr (tokenize (format (''.equ {} 0 : {}'' @ [CHR 0x0A]) [outputSymbol, type_name])))
        else Inr []) (\<lambda>equ_output.
     and_then (invoke_equates tokenize VARIABLE_TYPE_TO_NAME_MAP (arguments macro) args) (\<lambda>equ_arguments.
     Inr (equ_output
          @ [Token (ASSEMBLER SCOPE) ''.scope'', Token WHITESPACE_NEWLINE [CHR 0x0A]]
          @ equ_arguments
          @ definition macro
          @ [Token WHITESPACE_NEWLINE [CHR 0x0A], Token (ASSEMBLER SCEND) ''.scend''])))"

text \<open>
  The scanning loop of \<^verbatim>\<open>conditionalBlock\<close>; \<open>-1\<close> is the value of
  \<^verbatim>\<open>nextBlockTokenI\<close> and \<^verbatim>\<open>endIfTokenI\<close> while nothing has been found. The
  result is the pair of the two. (The loop also prints the level and the token
  to \<^verbatim>\<open>std::cout\<close>, which the model leaves out.)
\<close>

function conditionalBlock_scan ::
    "Token list \<Rightarrow> bool \<Rightarrow> int \<Rightarrow> nat \<Rightarrow> int \<Rightarrow> int \<Rightarrow> int \<times> int" where
  "conditionalBlock_scan ts conditionMet relativeScopeLevel currentTokenI nextBlockTokenI endIfTokenI =
     (if currentTokenI < length ts then
        (if relativeScopeLevel = 0 \<and> type (ts ! currentTokenI) \<in> {PREPROCESSOR ENDIF}
         then (nextBlockTokenI, int currentTokenI)
         else
           (let alternate = (relativeScopeLevel = 0
                  \<and> type (ts ! currentTokenI) \<in> {PREPROCESSOR ELSE, PREPROCESSOR ELSEDEF, PREPROCESSOR ELSENDEF});
                next = (if alternate \<and> nextBlockTokenI = -1 then int currentTokenI else nextBlockTokenI)
            in if alternate \<and> \<not> conditionMet then (next, endIfTokenI)
               else conditionalBlock_scan ts conditionMet
                      (if type (ts ! currentTokenI) \<in> {PREPROCESSOR IFDEF, PREPROCESSOR IFNDEF}
                       then relativeScopeLevel + 1
                       else if type (ts ! currentTokenI) \<in> {PREPROCESSOR ENDIF} then relativeScopeLevel - 1
                       else relativeScopeLevel)
                      (currentTokenI + 1) next endIfTokenI))
      else (nextBlockTokenI, endIfTokenI))"
  by pat_completeness auto
termination
  by (relation "measure (\<lambda>(ts, c, l, currentTokenI, n, e). length ts - currentTokenI)") auto

declare conditionalBlock_scan.simps [simp del]

definition conditionalBlock :: "Preprocessor \<Rightarrow> nat \<Rightarrow> bool \<Rightarrow> error + Preprocessor \<times> nat" where
  "conditionalBlock st tokenI conditionMet =
     (case conditionalBlock_scan (m_tokens st) conditionMet 0 tokenI (-1) (-1) of
        (nextBlockTokenI, endIfTokenI) \<Rightarrow>
          if (conditionMet \<and> endIfTokenI = -1) \<or> (\<not> conditionMet \<and> nextBlockTokenI = -1)
          then Inl (ERROR ''Preprocessor::_ifdef() - Unclosed ifdef block.'')
          else if conditionMet then
            (let ts1 = (if nextBlockTokenI \<noteq> -1
                        then take (nat nextBlockTokenI) (m_tokens st) @ drop (nat endIfTokenI) (m_tokens st)
                        else m_tokens st);
                 ts2 = take tokenI ts1 @ [Token COMMENT_SINGLE_LINE ''; conditional''] @ drop tokenI ts1
             in Inr (st\<lparr>m_tokens := ts2\<rparr>, tokenI))
          else Inr (st, nat nextBlockTokenI))"

definition Preprocessor_ifdef :: "Preprocessor \<Rightarrow> nat \<Rightarrow> error + Preprocessor \<times> nat" where
  "Preprocessor_ifdef st tokenI =
     and_then (consume (m_tokens st) tokenI ERROR_default) (\<lambda>(_, i0).
     let i1 = skipTokens (m_tokens st) i0 space_tab in
     and_then (consume_expecting (m_tokens st) i1 {SYMBOL} ''Preprocessor::_ifdef() - Expected symbol.'') (\<lambda>(t, i2).
     let symbol = value t;
         i3 = skipTokens (m_tokens st) i2 space_tab;
         isDefined = (m_symbols st symbol \<noteq> None)
     in conditionalBlock st i3 isDefined))"

definition Preprocessor_ifndef :: "Preprocessor \<Rightarrow> nat \<Rightarrow> error + Preprocessor \<times> nat" where
  "Preprocessor_ifndef st tokenI =
     and_then (consume (m_tokens st) tokenI ERROR_default) (\<lambda>(_, i0).
     let i1 = skipTokens (m_tokens st) i0 space_tab in
     and_then (consume_expecting (m_tokens st) i1 {SYMBOL} ''Preprocessor::_ifndef() - Expected symbol.'') (\<lambda>(t, i2).
     let symbol = value t;
         i3 = skipTokens (m_tokens st) i2 space_tab;
         isNotDefined = (m_symbols st symbol = None)
     in conditionalBlock st i3 isNotDefined))"

text \<open>
  The dispatch in the main loop of \<^verbatim>\<open>preprocess\<close> (the \<^verbatim>\<open>if\<close> that follows the
  blank-line and indentation bookkeeping of an iteration): a token whose type
  has an entry in \<^verbatim>\<open>preprocessors\<close> is handed to that handler, a bound symbol
  is replaced in the stream by its tokens, and any other token's text is
  written to the output. The table \<^verbatim>\<open>preprocessors\<close>, from token type to
  handler, is declared in PreprocessorV3.h, which is not among the sources; it
  is the first argument.
\<close>

definition preprocess_token ::
    "(Type \<rightharpoonup> (Preprocessor \<Rightarrow> nat \<Rightarrow> error + Preprocessor \<times> nat)) \<Rightarrow> Preprocessor \<Rightarrow> nat
      \<Rightarrow> error + Preprocessor \<times> nat" where
  "preprocess_token preprocessors st i =
     (let token = m_tokens st ! i in
      case preprocessors (type token) of
        Some handler \<Rightarrow> handler st i
      | None \<Rightarrow>
          if type token = SYMBOL \<and> m_symbols st (value token) \<noteq> None then
            and_then (consume (m_tokens st) i ERROR_default) (\<lambda>(_, i').
              Inr (st\<lparr>m_tokens := take i' (m_tokens st) @ the (m_symbols st (value token))
                                     @ drop i' (m_tokens st)\<rparr>, i'))
          else
            and_then (consume (m_tokens st) i ERROR_default) (\<lambda>(t, i').
              Inr (st\<lparr>m_writer := m_writer st @ value t\<rparr>, i')))"

text \<open>Token streams to run the handlers on.\<close>

definition newline :: Token where
  "newline = Token WHITESPACE_NEWLINE [CHR 0x0A]"

definition space :: Token where
  "space = Token WHITESPACE_SPACE '' ''"

definition redefine_tokens :: "Token list" where
  "redefine_tokens =
     [Token (PREPROCESSOR DEFINE) ''#define'', space, Token SYMBOL ''S'', space,
      Token (LITERAL NUMBER_DECIMAL) ''2'', newline]"

definition ifdef_tokens :: "Token list" where
  "ifdef_tokens =
     [Token (PREPROCESSOR IFDEF) ''#ifdef'', space, Token SYMBOL ''X'', newline,
      Token SYMBOL ''A'', newline, Token (PREPROCESSOR ENDIF) ''#endif'', newline]"

definition early_return :: Macro where
  "early_return = \<lparr>name = ''early_return'', arguments = [], returnType = UNKNOWN,
     definition = [Token (PREPROCESSOR MACRET) ''#macret'', newline, Token SYMBOL ''X'', newline]\<rparr>"


text \<open>
  Preprocessor states: \<open>S\<close> bound to the token \<open>1\<close> in front of
  \<^verbatim>\<open>#define S 2\<close>; \<open>X\<close> unbound in front of an \<^verbatim>\<open>#ifdef X\<close> block closed by
  \<^verbatim>\<open>#endif\<close>; and the stream left by invoking the macro \<open>early_return\<close>, whose
  body is the line \<^verbatim>\<open>#macret\<close> followed by the line \<open>X\<close>, with that macro on
  the invocation stack.
\<close>

definition bound_S :: Preprocessor where
  "bound_S = \<lparr>m_tokens = redefine_tokens,
     m_symbols = [''S'' \<mapsto> [Token (LITERAL NUMBER_DECIMAL) ''1'']], m_macroStack = [], m_writer = []\<rparr>"

definition undefined_X :: Preprocessor where
  "undefined_X = \<lparr>m_tokens = ifdef_tokens, m_symbols = Map.empty, m_macroStack = [], m_writer = []\<rparr>"

definition macret_state :: Preprocessor where
  "macret_state = \<lparr>m_tokens =
       [Token (ASSEMBLER SCOPE) ''.scope'', newline,
        Token (PREPROCESSOR MACRET) ''#macret'', newline, Token SYMBOL ''X'', newline,
        newline, Token (ASSEMBLER SCEND) ''.scend'', newline],
     m_symbols = Map.empty, m_macroStack = [([], early_return)], m_writer = []\<rparr>"

section \<open>Properties of the memory regions\<close>

lemma write_loop_length:
  "write_loop d a n i v = Some d' \<Longrightarrow> length d' = length d"
proof (induction d a n i v rule: write_loop.induct)
  case (1 d a n i v)
  show ?case
  proof (cases "i < n")
    case True
    with "1.prems" have inr: "unat (a + word_of_int i) < length d"
      by (subst (asm) write_loop.simps) (simp split: if_splits)
    with True "1.prems" have "write_loop (d[unat (a + word_of_int i) := ucast (v AND 0xFF)]) a n (i + 1) (drop_bit 8 v) = Some d'"
      by (subst (asm) write_loop.simps) simp
    from "1.IH"[OF True inr this] show ?thesis by simp
  next
    case False
    with "1.prems" show ?thesis by (subst (asm) write_loop.simps) simp
  qed
qed

lemma write_loop_succeeds:
  "(\<forall>j. i \<le> j \<and> j < n \<longrightarrow> unat (a + word_of_int j) < length d) \<Longrightarrow>
   \<exists>d'. write_loop d a n i v = Some d'"
proof (induction d a n i v rule: write_loop.induct)
  case (1 d a n i v)
  show ?case
  proof (cases "i < n")
    case True
    with "1.prems" have inr: "unat (a + word_of_int i) < length d" by simp
    have "\<exists>d'. write_loop (d[unat (a + word_of_int i) := ucast (v AND 0xFF)]) a n (i + 1) (drop_bit 8 v) = Some d'"
      using "1.prems" by (intro "1.IH"[OF True inr]) simp
    with True inr show ?thesis by (subst write_loop.simps) simp
  next
    case False
    then show ?thesis by (subst write_loop.simps) simp
  qed
qed

lemma write_loop_untouched:
  "write_loop d a n i v = Some d' \<Longrightarrow>
   (\<forall>j. i \<le> j \<and> j < n \<longrightarrow> unat (a + word_of_int j) \<noteq> x) \<Longrightarrow> d' ! x = d ! x"
proof (induction d a n i v rule: write_loop.induct)
  case (1 d a n i v)
  show ?case
  proof (cases "i < n")
    case True
    with "1.prems"(1) have inr: "unat (a + word_of_int i) < length d"
      by (subst (asm) write_loop.simps) (simp split: if_splits)
    with True "1.prems"(1) have step: "write_loop (d[unat (a + word_of_int i) := ucast (v AND 0xFF)]) a n (i + 1) (drop_bit 8 v) = Some d'"
      by (subst (asm) write_loop.simps) simp
    have "d' ! x = (d[unat (a + word_of_int i) := ucast (v AND 0xFF)]) ! x"
      using "1.prems"(2) by (intro "1.IH"[OF True inr step]) simp
    moreover have "unat (a + word_of_int i) \<noteq> x" using "1.prems"(2) True by simp
    ultimately show ?thesis by simp
  next
    case False
    with "1.prems"(1) show ?thesis by (subst (asm) write_loop.simps) simp
  qed
qed

lemma word32_of_int_inj:
  assumes "i < j" and "j - i < 2 ^ 32"
  shows "(word_of_int i :: word32) \<noteq> word_of_int j"
proof
  assume "(word_of_int i :: word32) = word_of_int j"
  then have "j mod 2 ^ 32 = i mod 2 ^ 32"
    by (simp add: word_of_int_eq_iff take_bit_eq_mod)
  then have "(2 ^ 32 :: int) dvd j - i"
    by (simp add: mod_eq_dvd_iff)
  moreover have "0 < j - i" using assms(1) by simp
  ultimately show False using assms(2) zdvd_not_zless by blast
qed

lemma ucast_low_byte: "(ucast ((v :: word32) AND 0xFF) :: byte) = ucast v"
proof -
  have "(0xFF :: word32) = mask 8" by (simp add: mask_eq_exp_minus_1)
  moreover have "(ucast (v AND mask 8) :: byte) = ucast v"
    by (rule bit_word_eqI) (auto simp: bit_simps)
  ultimately show ?thesis by simp
qed

lemma write_loop_stored:
  "write_loop d a n i v = Some d' \<Longrightarrow> n - i \<le> 2 ^ 32 \<Longrightarrow> i \<le> k \<Longrightarrow> k < n \<Longrightarrow>
   d' ! unat (a + word_of_int k) = ucast (drop_bit (8 * nat (k - i)) v)"
proof (induction d a n i v rule: write_loop.induct)
  case (1 d a n i v)
  from "1.prems" have True: "i < n" by simp
  with "1.prems"(1) have inr: "unat (a + word_of_int i) < length d"
    by (subst (asm) write_loop.simps) (simp split: if_splits)
  with True "1.prems"(1) have step: "write_loop (d[unat (a + word_of_int i) := ucast (v AND 0xFF)]) a n (i + 1) (drop_bit 8 v) = Some d'"
    by (subst (asm) write_loop.simps) simp
  show ?case
  proof (cases "k = i")
    case True
    have "\<forall>j. i + 1 \<le> j \<and> j < n \<longrightarrow> unat (a + word_of_int j) \<noteq> unat (a + word_of_int i)"
    proof (intro allI impI)
      fix j assume j: "i + 1 \<le> j \<and> j < n"
      then have "(word_of_int i :: word32) \<noteq> word_of_int j"
        using "1.prems"(2) by (intro word32_of_int_inj) auto
      then show "unat (a + word_of_int j) \<noteq> unat (a + word_of_int i)"
        by (simp add: word_unat_eq_iff [symmetric])
    qed
    from write_loop_untouched [OF step this]
    have "d' ! unat (a + word_of_int i) = ucast (v AND 0xFF)"
      using inr by simp
    also have "\<dots> = (ucast v :: byte)"
      by (rule ucast_low_byte)
    finally show ?thesis using True by simp
  next
    case False
    with "1.prems" have k: "i + 1 \<le> k" by simp
    have "d' ! unat (a + word_of_int k) = ucast (drop_bit (8 * nat (k - (i + 1))) (drop_bit 8 v))"
      using "1.prems" k by (intro "1.IH"[OF \<open>i < n\<close> inr step]) auto
    also have "8 * nat (k - (i + 1)) + 8 = 8 * nat (k - i)" using k by auto
    then have "drop_bit (8 * nat (k - (i + 1))) (drop_bit 8 v) = drop_bit (8 * nat (k - i)) v"
      by (simp add: add.commute)
    finally show ?thesis .
  qed
qed

text \<open>
  Claim C6 says that a write of \<open>n \<ge> 2\<close> bytes stores the low byte of the value
  at \<open>addr + n - 1\<close> and the most significant of the \<open>n\<close> low-order bytes at
  \<open>addr\<close>, which is the layout \<^verbatim>\<open>Memory::read\<close> assumes. \<^verbatim>\<open>Memory::write\<close>
  does the opposite: for every in-bounds write of \<open>n \<ge> 2\<close> bytes (\<open>n\<close> a C++
  \<^verbatim>\<open>int\<close>) whose addresses index inside the byte array, the write returns
  with the exception record untouched and byte \<open>k\<close> of the value, counted from
  the least-significant end, is stored at \<open>addr + k\<close>; the low byte is at
  \<open>addr\<close>. Writing \<open>0x1234\<close> as two bytes at address 0 stores \<open>0x34\<close> at
  address 0 and \<open>0x12\<close> at address 1.
\<close>

theorem write_low_byte_at_lowest_address:
  assumes "2 \<le> n" and "n \<le> 2147483647"
    and "Memory_in_bounds m a" and "Memory_in_bounds m (a + word_of_int n - 1)"
    and "\<forall>j. 0 \<le> j \<and> j < n \<longrightarrow> unat (a + word_of_int j) < length (data m)"
  shows "\<exists>d'. Memory_write m a v e n = Some (m\<lparr>data := d'\<rparr>, e)
     \<and> (\<forall>k. 0 \<le> k \<and> k < n \<longrightarrow> d' ! unat (a + word_of_int k) = ucast (drop_bit (8 * nat k) v))
     \<and> d' ! unat a = ucast v"
proof -
  from write_loop_succeeds [of 0 n a "data m" v] assms(5)
  obtain d' where d': "write_loop (data m) a n 0 v = Some d'" by blast
  have w: "Memory_write m a v e n = Some (m\<lparr>data := d'\<rparr>, e)"
    using assms(3,4) d' by (simp add: Memory_write_def)
  have st: "\<forall>k. 0 \<le> k \<and> k < n \<longrightarrow> d' ! unat (a + word_of_int k) = ucast (drop_bit (8 * nat k) v)"
    using write_loop_stored [OF d'] assms(2) by auto
  from st assms(1) have "d' ! unat (a + word_of_int 0) = ucast (drop_bit (8 * nat 0) v)"
    by (intro st [rule_format]) simp
  then have lo: "d' ! unat a = ucast v" by simp
  show ?thesis
    using w st lo by blast
qed

theorem write_low_byte_at_lowest_address_witness:
  "Memory_in_bounds ram4 0 \<and> Memory_in_bounds ram4 (0 + word_of_int 2 - 1)
   \<and> Memory_write ram4 0 0x1234 no_write_exception 2
       = Some (ram4\<lparr>data := [0x34, 0x12, 0, 0]\<rparr>, no_write_exception)
   \<and> [0x34, 0x12, 0, 0] ! unat (0 :: word32) = (ucast (0x1234 :: word32) :: byte)
   \<and> [0x34, 0x12, 0, 0] ! unat (0 + word_of_int 2 - 1 :: word32) \<noteq> (ucast (0x1234 :: word32) :: byte)"
proof -
  have b1: "Memory_in_bounds ram4 0" and b2: "Memory_in_bounds ram4 (0 + word_of_int 2 - 1)"
    by (simp_all add: Memory_in_bounds_def ram4_def)
  have ix: "\<forall>j. 0 \<le> j \<and> j < (2::int) \<longrightarrow> unat ((0::word32) + word_of_int j) < length (data ram4)"
  proof (intro allI impI)
    fix j :: int assume "0 \<le> j \<and> j < 2"
    then have "j = 0 \<or> j = 1" by arith
    then show "unat ((0::word32) + word_of_int j) < length (data ram4)"
      by (auto simp: ram4_def)
  qed
  from write_low_byte_at_lowest_address [of 2 ram4 0 "0x1234" no_write_exception, OF _ _ b1 b2 ix]
  obtain d' where w: "Memory_write ram4 0 0x1234 no_write_exception 2 = Some (ram4\<lparr>data := d'\<rparr>, no_write_exception)"
    and lo: "d' ! unat (0 :: word32) = (ucast (0x1234 :: word32) :: byte)"
    by auto
  have e: "Memory_write ram4 0 0x1234 no_write_exception 2 = Some (ram4\<lparr>data := [0x34, 0x12, 0, 0]\<rparr>, no_write_exception)"
    by (simp add: Memory_write_def Memory_in_bounds_def write_loop.simps ram4_def)
  with w have "d' = [0x34, 0x12, 0, 0]" by (simp add: ram4_def)
  with lo e b1 b2 show ?thesis by simp
qed

text \<open>
  Claim C1 says that reading \<open>n\<close> bytes back from the address they were written
  to returns the value modulo \<open>2 ^ (8 * n)\<close>. \<^verbatim>\<open>Memory::write\<close> stores the
  least-significant byte at the lowest address and \<^verbatim>\<open>Memory::read\<close> takes the
  byte at the lowest address as the most significant one. For every in-bounds
  two-byte write, the two-byte read at the same address returns the two low
  bytes of the value exchanged: writing \<open>0x1234\<close> and reading it back returns
  \<open>0x3412\<close>.
\<close>

theorem write_then_read_swaps_halfword:
  assumes "Memory_in_bounds m a" and "Memory_in_bounds m (a + 1)"
    and "unat a < length (data m)" and "unat (a + 1) < length (data m)"
  shows "\<exists>m'. Memory_write m a v e 2 = Some (m', e)
     \<and> Memory_read m' a e' 2
         = Some (push_bit 8 (ucast (ucast v :: byte)) + ucast (ucast (drop_bit 8 v) :: byte), e')"
proof -
  have ne: "unat (a + 1) \<noteq> unat a"
    by (simp add: word_unat_eq_iff [symmetric])
  have b: "Memory_in_bounds m (a + word_of_int 2 - 1)" using assms(2) by (simp add: add.commute)
  let ?d = "(data m)[unat a := ucast v, unat (a + 1) := ucast (drop_bit 8 v)]"
  have w: "write_loop (data m) a 2 0 v = Some ?d"
    using assms(3,4) by (simp add: write_loop.simps ucast_low_byte)
  have "Memory_in_bounds (m\<lparr>data := ?d\<rparr>) x = Memory_in_bounds m x" for x
    by (simp add: Memory_in_bounds_def)
  with assms(1) b have bm: "Memory_in_bounds (m\<lparr>data := ?d\<rparr>) a"
      "Memory_in_bounds (m\<lparr>data := ?d\<rparr>) (a + word_of_int 2 - 1)"
    by simp_all
  have r: "read_loop ?d a 2 0 0 = Some (push_bit 8 (ucast (ucast v :: byte)) + ucast (ucast (drop_bit 8 v) :: byte))"
    using assms(3,4) ne by (simp add: read_loop.simps)
  have "Memory_write m a v e 2 = Some (m\<lparr>data := ?d\<rparr>, e)"
    using assms(1) b w by (simp add: Memory_write_def)
  moreover have "Memory_read (m\<lparr>data := ?d\<rparr>) a e' 2 = Some (push_bit 8 (ucast (ucast v :: byte)) + ucast (ucast (drop_bit 8 v) :: byte), e')"
    using bm r by (simp add: Memory_read_def)
  ultimately show ?thesis by blast
qed

theorem write_then_read_swaps_halfword_witness:
  "Memory_in_bounds ram4 0 \<and> Memory_in_bounds ram4 (0 + 1)
   \<and> Memory_write ram4 0 0x1234 no_write_exception 2 = Some (ram4\<lparr>data := [0x34, 0x12, 0, 0]\<rparr>, no_write_exception)
   \<and> Memory_read (ram4\<lparr>data := [0x34, 0x12, 0, 0]\<rparr>) 0 no_read_exception 2 = Some (0x3412, no_read_exception)
   \<and> (0x3412 :: word32) \<noteq> 0x1234 mod 2 ^ (8 * 2)"
proof -
  have b1: "Memory_in_bounds ram4 0" and b2: "Memory_in_bounds ram4 (0 + 1)"
    by (simp_all add: Memory_in_bounds_def ram4_def)
  have l1: "unat (0 :: word32) < length (data ram4)" and l2: "unat (0 + 1 :: word32) < length (data ram4)"
    by (simp_all add: ram4_def)
  from write_then_read_swaps_halfword [OF b1 b2 l1 l2, of "0x1234" no_write_exception no_read_exception]
  obtain m' where w: "Memory_write ram4 0 0x1234 no_write_exception 2 = Some (m', no_write_exception)"
    and r: "Memory_read m' 0 no_read_exception 2
         = Some (push_bit 8 (ucast (ucast (0x1234 :: word32) :: byte)) + ucast (ucast (drop_bit 8 (0x1234 :: word32)) :: byte), no_read_exception)"
    by blast
  have "Memory_write ram4 0 0x1234 no_write_exception 2 = Some (ram4\<lparr>data := [0x34, 0x12, 0, 0]\<rparr>, no_write_exception)"
    by (simp add: Memory_write_def Memory_in_bounds_def write_loop.simps ram4_def)
  with w have m': "m' = ram4\<lparr>data := [0x34, 0x12, 0, 0]\<rparr>" by simp
  have "push_bit 8 (ucast (ucast (0x1234 :: word32) :: byte)) + ucast (ucast (drop_bit 8 (0x1234 :: word32)) :: byte) = (0x3412 :: word32)"
    by simp
  with r m' w b1 b2 show ?thesis by simp
qed

text \<open>
  Claim C8. \<^verbatim>\<open>ROM::write\<close>, at any address, value and byte count, records
  \<open>ACCESS_DENIED\<close> together with the address, the value and the byte count,
  leaves the region as it was, and every later read returns what it returned
  before.
\<close>

theorem ROM_write_access_denied:
  "MemoryWriteException.type (snd (ROM_write m a v e n)) = ACCESS_DENIED
   \<and> MemoryWriteException.address (snd (ROM_write m a v e n)) = a
   \<and> MemoryWriteException.value (snd (ROM_write m a v e n)) = v
   \<and> num_bytes (snd (ROM_write m a v e n)) = n
   \<and> fst (ROM_write m a v e n) = m
   \<and> data (fst (ROM_write m a v e n)) = data m
   \<and> Memory_read (fst (ROM_write m a v e n)) a' e' n' = Memory_read m a' e' n'"
  by (simp add: ROM_write_def)

theorem ROM_write_access_denied_witness:
  "ROM_write rom4 0 0 no_write_exception 1
     = (rom4, \<lparr>MemoryWriteException.type = ACCESS_DENIED, MemoryWriteException.address = 0,
               MemoryWriteException.value = 0, MemoryWriteException.num_bytes = 1\<rparr>)
   \<and> Memory_read (fst (ROM_write rom4 0 0 no_write_exception 1)) 0 no_read_exception 4
     = Some (0xAABBCCDD, no_read_exception)"
proof -
  have "Memory_read rom4 0 no_read_exception 4 = Some (0xAABBCCDD, no_read_exception)"
    by (simp add: Memory_read_def Memory_in_bounds_def read_loop.simps rom4_def)
  with ROM_write_access_denied [of rom4 0 0 no_write_exception 1 0 no_read_exception 4]
  show ?thesis
    by (simp add: ROM_write_def no_write_exception_def)
qed

text \<open>
  Claim C10. When \<open>addr\<close> or \<open>addr + n - 1\<close> (computed on 32-bit words, as
  the code computes it) is outside \<open>[lo, hi]\<close>, \<^verbatim>\<open>Memory::read\<close> returns 0
  whatever the region holds and records \<open>OUT_OF_BOUNDS_ADDRESS\<close> with the
  address of the access.
\<close>

theorem read_out_of_bounds:
  "\<not> Memory_in_bounds m a \<or> \<not> Memory_in_bounds m (a + word_of_int n - 1) \<Longrightarrow>
   Memory_read m a e n =
     Some (0, e\<lparr>MemoryReadException.type := MemoryReadException_Type.OUT_OF_BOUNDS_ADDRESS,
                    MemoryReadException.address := a\<rparr>)"
  by (simp add: Memory_read_def)

theorem read_out_of_bounds_witness:
  "Memory_in_bounds rom4 2 \<and> \<not> Memory_in_bounds rom4 (2 + word_of_int 4 - 1)
   \<and> Memory_read rom4 2 no_read_exception 4 =
     Some (0, \<lparr>MemoryReadException.type = MemoryReadException_Type.OUT_OF_BOUNDS_ADDRESS,
                 MemoryReadException.address = 2\<rparr>)"
proof -
  have b: "Memory_in_bounds rom4 2" and h: "\<not> Memory_in_bounds rom4 (2 + word_of_int 4 - 1)"
    by (simp_all add: Memory_in_bounds_def rom4_def)
  from read_out_of_bounds [OF disjI2, OF h, of no_read_exception] b h show ?thesis
    by (simp add: no_read_exception_def)
qed

section \<open>Properties of the software-interrupt gateway\<close>

lemma assemble_ascending_2:
  assumes "\<forall>a x. system_bus_read_byte emu a x = (mem a, x)"
  shows "assemble_ascending emu mem_addr 2 0 0 x
       = (push_bit 8 (ucast (mem mem_addr)) + ucast (mem (mem_addr + 1)), x)"
  using assms by (simp add: assemble_ascending.simps)

lemma assemble_descending_2:
  assumes "\<forall>a x. system_bus_read_byte emu a x = (mem a, x)"
  shows "assemble_descending emu mem_addr (uint (2 :: byte) - 1) 0 x
       = (push_bit 8 (ucast (mem (mem_addr + 1))) + ucast (mem mem_addr), x)"
  using assms by (simp add: assemble_descending.simps)

text \<open>
  Claim C2 says that with \<^verbatim>\<open>little_endian\<close> true the byte at \<open>addr + 0\<close>
  is the lowest-significance byte of the assembled value, and with it false
  the byte at \<open>addr + size - 1\<close> is. The code does the opposite. For every
  in-bounds two-byte invocation (a bus that returns the byte \<open>mem a\<close> for
  address \<open>a\<close> and leaves the exception bundle alone), \<^verbatim>\<open>_emu_printm\<close> and
  \<^verbatim>\<open>_emu_assertm\<close> with \<^verbatim>\<open>little_endian\<close> true take the byte at
  \<open>addr\<close> as the high byte and the byte at \<open>addr + 1\<close> as the low byte; with
  \<^verbatim>\<open>little_endian\<close> false the byte at \<open>addr + 1\<close> is the high byte and the
  byte at \<open>addr\<close> the low one.
\<close>

theorem little_endian_flag_assembles_first_byte_highest:
  assumes "\<forall>a x. system_bus_read_byte emu a x = (mem a, x)"
  shows "emu_printm emu mem_addr 2 True x
           = Inr ([Printf_MEM mem_addr (push_bit 8 (ucast (mem mem_addr)) + ucast (mem (mem_addr + 1)))], x)
       \<and> emu_printm emu mem_addr 2 False x
           = Inr ([Printf_MEM mem_addr (push_bit 8 (ucast (mem (mem_addr + 1))) + ucast (mem mem_addr))], x)
       \<and> emu_assertm emu mem_addr 2 True lo hi x
           = (let val = push_bit 8 (ucast (mem mem_addr)) + ucast (mem (mem_addr + 1)) in
              if val \<ge> lo \<and> val \<le> hi then Inr ([], x) else Inl (Expected_memory mem_addr lo hi val))
       \<and> emu_assertm emu mem_addr 2 False lo hi x
           = (let val = push_bit 8 (ucast (mem (mem_addr + 1))) + ucast (mem mem_addr) in
              if val \<ge> lo \<and> val \<le> hi then Inr ([], x) else Inl (Expected_memory mem_addr lo hi val))"
  using assemble_ascending_2 [OF assms] assemble_descending_2 [OF assms]
  by (simp add: emu_printm_def emu_assertm_def Let_def)

theorem little_endian_flag_assembles_first_byte_highest_witness:
  "emu_printm emu_test 0 2 True () = Inr ([Printf_MEM 0 0x1234], ())
   \<and> emu_printm emu_test 0 2 False () = Inr ([Printf_MEM 0 0x3412], ())
   \<and> emu_assertm emu_test 0 2 True 0x3412 0x3412 () = Inl (Expected_memory 0 0x3412 0x3412 0x1234)
   \<and> emu_assertm emu_test 0 2 False 0x3412 0x3412 () = Inr ([], ())"
proof -
  have h: "\<forall>a x. system_bus_read_byte emu_test a x = ((\<lambda>a. if a = 0 then 0x12 else if a = 1 then 0x34 else 0) a, x)"
    by (simp add: emu_test_def)
  from little_endian_flag_assembles_first_byte_highest [OF h, of 0 "()" "0x3412" "0x3412"]
  show ?thesis by (simp add: Let_def)
qed

text \<open>
  Claim C7 says that syscall numbers 1020 and 1021 reach \<^verbatim>\<open>_emu_log\<close> and
  \<^verbatim>\<open>_emu_err\<close> and that the unknown-syscall diagnostic is raised exactly
  outside the nine documented numbers. The \<^verbatim>\<open>switch\<close> of \<^verbatim>\<open>_swi\<close> has no
  case for 1020 or 1021: whenever the condition passes and register
  \<^verbatim>\<open>NR\<close> holds 1020 or 1021, the result is the
  \<^verbatim>\<open>INVALID SYSCALL NUMBER\<close> diagnostic.
\<close>

theorem swi_emu_log_not_dispatched:
  assumes "check_cond emu (pstate emu) (ucast (bitfield_u32 emu instr 22 4))"
    and "fst (read_reg emu (NR emu) x) = 1020 \<or> fst (read_reg emu (NR emu) x) = 1021"
  shows "swi emu instr x = Inl (INVALID_SYSCALL_NUMBER (fst (read_reg emu (NR emu) x)))"
  using assms by (auto simp: swi_def Let_def split: prod.splits)

theorem swi_emu_log_not_dispatched_witness:
  "check_cond emu_test (pstate emu_test) (ucast (bitfield_u32 emu_test 0 22 4))
   \<and> fst (read_reg emu_test (NR emu_test) ()) = 1020
   \<and> swi emu_test 0 () = Inl (INVALID_SYSCALL_NUMBER 1020)"
proof -
  have c: "check_cond emu_test (pstate emu_test) (ucast (bitfield_u32 emu_test 0 22 4))"
    and r: "fst (read_reg emu_test (NR emu_test) ()) = 1020"
    by (simp_all add: emu_test_def)
  from swi_emu_log_not_dispatched [OF c disjI1, OF r] c r show ?thesis by simp
qed

text \<open>
  The diagnostic is raised exactly when the condition passes and the number is
  none of the seven that the \<^verbatim>\<open>switch\<close> lists.
\<close>

lemma swi_invalid_iff:
  "(swi emu instr x = Inl (INVALID_SYSCALL_NUMBER n)) \<longleftrightarrow>
   check_cond emu (pstate emu) (ucast (bitfield_u32 emu instr 22 4))
   \<and> fst (read_reg emu (NR emu) x) = n
   \<and> n \<notin> {1000, 1001, 1002, 1003, 1010, 1011, 1012}"
  by (auto simp: swi_def Let_def emu_print_def emu_printr_def emu_printm_def emu_printp_def
      emu_assertr_def emu_assertm_def emu_assertp_def split: prod.splits if_splits)

text \<open>Called directly, \<^verbatim>\<open>_emu_log\<close> does read the string up to the first 0 byte.\<close>

lemma emu_log_reads_string:
  "emu_log emu_test 0 () = Some (Inr ([Cout [char_of (0x12 :: nat), char_of (0x34 :: nat), CHR 0x0A]], ()))"
  by (simp add: emu_log_def emu_log_loop.simps emu_test_def)

section \<open>Properties of the preprocessor\<close>

lemma map_insert_keeps: "m k = Some v \<Longrightarrow> map_insert m k' v' k = Some v"
  by (auto simp: map_insert_def split: option.splits)

text \<open>
  Claim C3 says that a second \<^verbatim>\<open>#define S toks\<close> rebinds \<open>S\<close> to the new
  replacement list. \<^verbatim>\<open>_define\<close> stores the binding with
  \<^verbatim>\<open>m_symbols.insert\<close>, which does nothing when the key is present: whenever
  \<^verbatim>\<open>_define\<close> returns, every symbol that was bound before is still bound to
  the same token list, so the second definition is consumed and has no effect.
\<close>

theorem define_keeps_existing_binding:
  assumes "Preprocessor_define st tokenI = Inr (st', tokenI')"
    and "m_symbols st s = Some old"
  shows "m_symbols st' s = Some old"
  using assms
  by (auto simp: Preprocessor_define_def and_then_def Let_def map_insert_keeps
      split: sum.splits prod.splits)

lemma define_bound_S: "Preprocessor_define bound_S 0 = Inr (bound_S, 5)"
  by (simp add: Preprocessor_define_def bound_S_def redefine_tokens_def space_def newline_def
      consume_def consume_expecting_def expectToken_def isToken_def and_then_def
      skipTokens.simps collect_until.simps space_tab_def map_insert_def Let_def)

theorem define_keeps_existing_binding_witness:
  "Preprocessor_define bound_S 0 = Inr (bound_S, 5)
   \<and> m_symbols bound_S ''S'' = Some [Token (LITERAL NUMBER_DECIMAL) ''1'']
   \<and> m_symbols bound_S ''S'' \<noteq> Some [Token (LITERAL NUMBER_DECIMAL) ''2'']"
proof -
  have b: "m_symbols bound_S ''S'' = Some [Token (LITERAL NUMBER_DECIMAL) ''1'']"
    by (simp add: bound_S_def)
  from define_keeps_existing_binding [OF define_bound_S b] define_bound_S b
  show ?thesis by simp
qed

lemma scope_scan_one:
  "tokenI < length ts \<Longrightarrow> type (ts ! tokenI) \<noteq> ASSEMBLER SCOPE \<Longrightarrow>
   type (ts ! tokenI) \<noteq> ASSEMBLER SCEND \<Longrightarrow> scope_scan ts tokenI 0 = (tokenI + 1, 0)"
  by (subst scope_scan.simps) simp

text \<open>
  Claim C4 says that the scan of \<^verbatim>\<open>#macret\<close> leaves the cursor right after
  the \<^verbatim>\<open>.scend\<close> that \<^verbatim>\<open>#invoke\<close> inserted, skipping the rest of the macro
  body. The scan starts at level 0 and breaks as soon as the level is 0 after a
  token: when the first token it looks at is neither \<^verbatim>\<open>.scope\<close> nor
  \<^verbatim>\<open>.scend\<close>, it consumes that one token and stops. For a macro without
  return type, \<^verbatim>\<open>_macret\<close> then pops the invocation stack and returns with
  the cursor one token after the \<^verbatim>\<open>#macret\<close> and its blanks; the rest of
  the body is still ahead.
\<close>

theorem macret_skips_one_token:
  assumes "tokenI < length (m_tokens st)"
    and "m_macroStack st \<noteq> []"
    and "returnType (snd (hd (m_macroStack st))) = UNKNOWN"
    and "skipTokens (m_tokens st) (tokenI + 1) space_tab = i"
    and "i < length (m_tokens st)"
    and "type (m_tokens st ! i) \<noteq> ASSEMBLER SCOPE"
    and "type (m_tokens st ! i) \<noteq> ASSEMBLER SCEND"
  shows "Preprocessor_macret tokenize VARIABLE_TYPE_TO_NAME_MAP st tokenI
           = Inr (st\<lparr>m_macroStack := tl (m_macroStack st)\<rparr>, i + 1)"
  using assms scope_scan_one [OF assms(5,6,7)]
  by (simp add: Preprocessor_macret_def consume_def expectToken_def and_then_def Let_def)

text \<open>
  The stream of \<open>macret_state\<close> is what \<^verbatim>\<open>_invoke\<close> inserts for
  \<open>early_return\<close>, followed by the newline that ended the \<^verbatim>\<open>#invoke\<close> line.
\<close>

lemma macret_state_is_expansion:
  "expanded_macro_invoke tokenize VARIABLE_TYPE_TO_NAME_MAP early_return [] False []
     = Inr (butlast (m_tokens macret_state))"
  by (simp add: expanded_macro_invoke_def early_return_def macret_state_def and_then_def newline_def)

theorem macret_skips_one_token_witness:
  "Preprocessor_macret (\<lambda>s. []) Map.empty macret_state 2
     = Inr (macret_state\<lparr>m_macroStack := []\<rparr>, 4)
   \<and> m_tokens macret_state ! 4 = Token SYMBOL ''X''
   \<and> m_tokens macret_state ! 7 = Token (ASSEMBLER SCEND) ''.scend''"
proof -
  have sk: "skipTokens (m_tokens macret_state) (2 + 1) space_tab = 3"
    by (simp add: skipTokens.simps macret_state_def newline_def space_tab_def)
  have "Preprocessor_macret (\<lambda>s. []) Map.empty macret_state 2
          = Inr (macret_state\<lparr>m_macroStack := tl (m_macroStack macret_state)\<rparr>, 3 + 1)"
    by (rule macret_skips_one_token [OF _ _ _ sk])
      (simp_all add: macret_state_def early_return_def newline_def)
  then show ?thesis by (simp add: macret_state_def newline_def)
qed

text \<open>
  For a macro with a return type the scan starts on the newline that ends the
  return expression, which is neither \<^verbatim>\<open>.scope\<close> nor \<^verbatim>\<open>.scend\<close>: whenever
  \<^verbatim>\<open>_macret\<close> returns, the cursor is one past that newline.
\<close>

lemma collect_until_stops:
  "collect_until ts i T acc = Inr (r, j) \<Longrightarrow> j < length ts \<and> type (ts ! j) \<in> T \<and> i \<le> j"
proof (induction ts i T acc rule: collect_until.induct)
  case (1 ts i T acc)
  show ?case
  proof (cases "i < length ts")
    case True
    show ?thesis
    proof (cases "type (ts ! i) \<in> T")
      case t: True
      with True "1.prems" show ?thesis
        by (subst (asm) collect_until.simps)
          (simp add: isToken_def expectToken_def and_then_def)
    next
      case f: False
      from True f "1.prems" have "collect_until ts (i + 1) T (acc @ [ts ! i]) = Inr (r, j)"
        by (subst (asm) collect_until.simps)
          (simp add: isToken_def consume_def expectToken_def and_then_def)
      moreover have "isToken ts i T ERROR_default = Inr False"
        using True f by (simp add: isToken_def expectToken_def and_then_def)
      moreover have "consume ts i ERROR_default = Inr (ts ! i, i + 1)"
        using True by (simp add: consume_def expectToken_def and_then_def)
      ultimately have "j < length ts \<and> type (ts ! j) \<in> T \<and> i + 1 \<le> j"
        using "1.IH" [of False "(ts ! i, i + 1)" "ts ! i" "i + 1"] by simp
      then show ?thesis by simp
    qed
  next
    case False
    with "1.prems" show ?thesis
      by (subst (asm) collect_until.simps)
        (simp add: isToken_def expectToken_def and_then_def)
  qed
qed

lemma macret_returning_stops_after_newline:
  assumes "Preprocessor_macret tokenize VARIABLE_TYPE_TO_NAME_MAP st tokenI = Inr (st', i')"
    and "returnType (snd (hd (m_macroStack st))) \<noteq> UNKNOWN"
  shows "\<exists>return_value i2.
           collect_until (m_tokens st) (skipTokens (m_tokens st) (tokenI + 1) space_tab)
             {WHITESPACE_NEWLINE} [] = Inr (return_value, i2)
           \<and> type (m_tokens st ! i2) = WHITESPACE_NEWLINE \<and> i' = i2 + 1"
proof -
  let ?ts = "m_tokens st"
  let ?i1 = "skipTokens ?ts (tokenI + 1) space_tab"
  from assms obtain rv i2 where c: "collect_until ?ts ?i1 {WHITESPACE_NEWLINE} [] = Inr (rv, i2)"
    by (auto simp: Preprocessor_macret_def consume_def expectToken_def and_then_def Let_def
        split: if_splits sum.splits prod.splits)
  from collect_until_stops [OF c] have s: "i2 < length ?ts" "type (?ts ! i2) = WHITESPACE_NEWLINE"
    by simp_all
  then have sc: "scope_scan ?ts i2 0 = (i2 + 1, 0)"
    by (intro scope_scan_one) simp_all
  from assms c sc have "i' = i2 + 1"
    by (auto simp: Preprocessor_macret_def consume_def expectToken_def and_then_def Let_def
        split: if_splits sum.splits prod.splits option.splits)
  with c s show ?thesis by blast
qed

lemma conditionalBlock_scan_no_alternate:
  "\<forall>t \<in> set ts. type t \<notin> {PREPROCESSOR ELSE, PREPROCESSOR ELSEDEF, PREPROCESSOR ELSENDEF} \<Longrightarrow>
   fst (conditionalBlock_scan ts c l cur nb e) = nb"
proof (induction ts c l cur nb e rule: conditionalBlock_scan.induct)
  case (1 ts c l cur nb e)
  show ?case
  proof (cases "cur < length ts")
    case True
    with "1.prems" have na: "type (ts ! cur) \<notin> {PREPROCESSOR ELSE, PREPROCESSOR ELSEDEF, PREPROCESSOR ELSENDEF}"
      by (meson nth_mem)
    show ?thesis
    proof (cases "l = 0 \<and> type (ts ! cur) \<in> {PREPROCESSOR ENDIF}")
      case True
      with \<open>cur < length ts\<close> show ?thesis by (subst conditionalBlock_scan.simps) simp
    next
      case False
      have "fst (conditionalBlock_scan ts c
                  (if type (ts ! cur) \<in> {PREPROCESSOR IFDEF, PREPROCESSOR IFNDEF} then l + 1
                   else if type (ts ! cur) \<in> {PREPROCESSOR ENDIF} then l - 1 else l)
                  (cur + 1) nb e) = nb"
        using "1.IH" [OF \<open>cur < length ts\<close> False refl refl] na "1.prems" by simp
      with False na \<open>cur < length ts\<close> show ?thesis
        by (subst conditionalBlock_scan.simps) (simp add: Let_def)
    qed
  next
    case False
    then show ?thesis by (subst conditionalBlock_scan.simps) simp
  qed
qed

text \<open>
  Claim C5 says that a block whose condition is not met and that has no chained
  alternate but a matching \<^verbatim>\<open>#endif\<close> makes the resolver move the cursor to
  the \<^verbatim>\<open>#endif\<close> without a diagnostic. \<^verbatim>\<open>conditionalBlock\<close> raises the
  fatal diagnostic whenever the condition is not met and \<^verbatim>\<open>nextBlockTokenI\<close>
  is still \<open>-1\<close>: on every token stream without \<^verbatim>\<open>#else\<close>, \<^verbatim>\<open>#elsedef\<close>
  or \<^verbatim>\<open>#elsendef\<close>, with or without an \<^verbatim>\<open>#endif\<close>, a condition that is not
  met ends in \<open>Unclosed ifdef block\<close>.
\<close>

theorem conditionalBlock_not_met_needs_alternate:
  assumes "\<forall>t \<in> set (m_tokens st). type t \<notin> {PREPROCESSOR ELSE, PREPROCESSOR ELSEDEF, PREPROCESSOR ELSENDEF}"
  shows "conditionalBlock st tokenI False = Inl (ERROR ''Preprocessor::_ifdef() - Unclosed ifdef block.'')"
proof (cases "conditionalBlock_scan (m_tokens st) False 0 tokenI (-1) (-1)")
  case (Pair nextBlockTokenI endIfTokenI)
  with conditionalBlock_scan_no_alternate [OF assms, of False 0 tokenI "-1" "-1"]
  have "nextBlockTokenI = -1" by simp
  with Pair show ?thesis by (simp add: conditionalBlock_def)
qed

theorem conditionalBlock_not_met_needs_alternate_witness:
  "conditionalBlock_scan ifdef_tokens False 0 3 (-1) (-1) = (-1, 6)
   \<and> ifdef_tokens ! 6 = Token (PREPROCESSOR ENDIF) ''#endif''
   \<and> conditionalBlock undefined_X 3 False = Inl (ERROR ''Preprocessor::_ifdef() - Unclosed ifdef block.'')
   \<and> Preprocessor_ifdef undefined_X 0 = Inl (ERROR ''Preprocessor::_ifdef() - Unclosed ifdef block.'')"
proof -
  have h: "\<forall>t \<in> set (m_tokens undefined_X). type t \<notin> {PREPROCESSOR ELSE, PREPROCESSOR ELSEDEF, PREPROCESSOR ELSENDEF}"
    by (simp add: undefined_X_def ifdef_tokens_def space_def newline_def)
  have sc: "conditionalBlock_scan ifdef_tokens False 0 3 (-1) (-1) = (-1, 6)"
    by (simp add: conditionalBlock_scan.simps ifdef_tokens_def space_def newline_def Let_def)
  have c: "conditionalBlock undefined_X 3 False = Inl (ERROR ''Preprocessor::_ifdef() - Unclosed ifdef block.'')"
    by (rule conditionalBlock_not_met_needs_alternate [OF h])
  have "Preprocessor_ifdef undefined_X 0 = conditionalBlock undefined_X 3 False"
    by (simp add: Preprocessor_ifdef_def undefined_X_def ifdef_tokens_def space_def newline_def
        consume_def consume_expecting_def expectToken_def and_then_def skipTokens.simps
        space_tab_def Let_def numeral_3_eq_3)
  with c sc show ?thesis by (simp add: ifdef_tokens_def space_def newline_def)
qed

lemma card_PREPROCESSOR_DIRECTIVES: "card PREPROCESSOR_DIRECTIVES = 13"
  unfolding PREPROCESSOR_DIRECTIVES_def by simp

lemma TOKEN_SPEC_kinds: "snd ` set TOKEN_SPEC_PREPROCESSOR = PREPROCESSOR_DIRECTIVES"
  unfolding TOKEN_SPEC_PREPROCESSOR_def PREPROCESSOR_DIRECTIVES_def by simp

lemma no_directive_ifequ: "directive_token (''#ifequ'' @ CHR '' '' # rest) = None"
  by (simp add: directive_token_def TOKEN_SPEC_PREPROCESSOR_def matches_directive_def)

lemma no_directive_ifnequ: "directive_token (''#ifnequ'' @ CHR '' '' # rest) = None"
  by (simp add: directive_token_def TOKEN_SPEC_PREPROCESSOR_def matches_directive_def)

lemma no_directive_ifless: "directive_token (''#ifless'' @ CHR '' '' # rest) = None"
  by (simp add: directive_token_def TOKEN_SPEC_PREPROCESSOR_def matches_directive_def)

lemma no_directive_ifmore: "directive_token (''#ifmore'' @ CHR '' '' # rest) = None"
  by (simp add: directive_token_def TOKEN_SPEC_PREPROCESSOR_def matches_directive_def)

lemma no_directive_elseequ: "directive_token (''#elseequ'' @ CHR '' '' # rest) = None"
  by (simp add: directive_token_def TOKEN_SPEC_PREPROCESSOR_def matches_directive_def is_space_def)

lemma no_directive_elsenequ: "directive_token (''#elsenequ'' @ CHR '' '' # rest) = None"
  by (simp add: directive_token_def TOKEN_SPEC_PREPROCESSOR_def matches_directive_def is_space_def)

lemma no_directive_elseless: "directive_token (''#elseless'' @ CHR '' '' # rest) = None"
  by (simp add: directive_token_def TOKEN_SPEC_PREPROCESSOR_def matches_directive_def is_space_def)

lemma no_directive_elsemore: "directive_token (''#elsemore'' @ CHR '' '' # rest) = None"
  by (simp add: directive_token_def TOKEN_SPEC_PREPROCESSOR_def matches_directive_def is_space_def)

text \<open>
  Claim C9 says that each of the 21 directive spellings is produced by the
  tokenizer as a directive token kind of its own. \<^verbatim>\<open>Tokenizer::Type\<close> has 13
  preprocessor kinds, the directive patterns of \<^verbatim>\<open>TOKEN_SPEC\<close> produce exactly
  these, and an input that starts with \<^verbatim>\<open>#ifequ\<close>, \<^verbatim>\<open>#ifnequ\<close>,
  \<^verbatim>\<open>#ifless\<close>, \<^verbatim>\<open>#ifmore\<close>, \<^verbatim>\<open>#elseequ\<close>, \<^verbatim>\<open>#elsenequ\<close>,
  \<^verbatim>\<open>#elseless\<close> or \<^verbatim>\<open>#elsemore\<close> and a blank matches none of them.
\<close>

theorem comparison_directives_are_no_directive_tokens:
  "card PREPROCESSOR_DIRECTIVES = 13
   \<and> snd ` set TOKEN_SPEC_PREPROCESSOR = PREPROCESSOR_DIRECTIVES
   \<and> (\<forall>s \<in> {''#ifequ'', ''#ifnequ'', ''#ifless'', ''#ifmore'',
              ''#elseequ'', ''#elsenequ'', ''#elseless'', ''#elsemore''}.
        \<forall>rest. directive_token (s @ CHR '' '' # rest) = None)"
proof (intro conjI ballI allI)
  show "card PREPROCESSOR_DIRECTIVES = 13" by (rule card_PREPROCESSOR_DIRECTIVES)
  show "snd ` set TOKEN_SPEC_PREPROCESSOR = PREPROCESSOR_DIRECTIVES" by (rule TOKEN_SPEC_kinds)
next
  fix s rest
  assume "s \<in> {''#ifequ'', ''#ifnequ'', ''#ifless'', ''#ifmore'',
              ''#elseequ'', ''#elsenequ'', ''#elseless'', ''#elsemore''}"
  then have "s = ''#ifequ'' \<or> s = ''#ifnequ'' \<or> s = ''#ifless'' \<or> s = ''#ifmore''
      \<or> s = ''#elseequ'' \<or> s = ''#elsenequ'' \<or> s = ''#elseless'' \<or> s = ''#elsemore''"
    by (simp only: insert_iff empty_iff simp_thms)
  then show "directive_token (s @ CHR '' '' # rest) = None"
    by (elim disjE)
      (simp_all only: no_directive_ifequ no_directive_ifnequ no_directive_ifless no_directive_ifmore
        no_directive_elseequ no_directive_elsenequ no_directive_elseless no_directive_elsemore)
qed

theorem comparison_directives_are_no_directive_tokens_witness:
  "directive_token (''#ifequ'' @ CHR '' '' # ''X'') = None
   \<and> directive_token (''#elsemore'' @ CHR '' '' # ''X'') = None
   \<and> directive_token ''#ifdef X'' = Some (Token (PREPROCESSOR IFDEF) ''#ifdef'')
   \<and> directive_token ''#else '' = Some (Token (PREPROCESSOR ELSE) ''#else'')"
proof -
  from comparison_directives_are_no_directive_tokens
  have b: "\<forall>s \<in> {''#ifequ'', ''#ifnequ'', ''#ifless'', ''#ifmore'',
              ''#elseequ'', ''#elsenequ'', ''#elseless'', ''#elsemore''}.
        \<forall>rest. directive_token (s @ CHR '' '' # rest) = None"
    by (elim conjE)
  have "''#ifequ'' \<in> {''#ifequ'', ''#ifnequ'', ''#ifless'', ''#ifmore'',
              ''#elseequ'', ''#elsenequ'', ''#elseless'', ''#elsemore''}"
    and "''#elsemore'' \<in> {''#ifequ'', ''#ifnequ'', ''#ifless'', ''#ifmore'',
              ''#elseequ'', ''#elsenequ'', ''#elseless'', ''#elsemore''}"
    by (simp_all only: insert_iff simp_thms)
  with b have "directive_token (''#ifequ'' @ CHR '' '' # ''X'') = None"
    and "directive_token (''#elsemore'' @ CHR '' '' # ''X'') = None"
    by (simp_all only: bspec [OF b] simp_thms)
  moreover have "directive_token ''#ifdef X'' = Some (Token (PREPROCESSOR IFDEF) ''#ifdef'')"
    and "directive_token ''#else '' = Some (Token (PREPROCESSOR ELSE) ''#else'')"
    by (simp_all add: directive_token_def TOKEN_SPEC_PREPROCESSOR_def matches_directive_def is_space_def)
  ultimately show ?thesis by simp
qed

text \<open>
  In the main loop a token is handed to a handler only through the entry of
  \<^verbatim>\<open>preprocessors\<close> for its type. A token without such an entry that is not a
  bound symbol is written to the output; with handlers registered for
  directive kinds only, that is what happens to a \<^verbatim>\<open>#\<close> token.
\<close>

lemma preprocess_token_emits:
  assumes "i < length (m_tokens st)"
    and "preprocessors (type (m_tokens st ! i)) = None"
    and "type (m_tokens st ! i) \<noteq> SYMBOL \<or> m_symbols st (value (m_tokens st ! i)) = None"
  shows "preprocess_token preprocessors st i
           = Inr (st\<lparr>m_writer := m_writer st @ value (m_tokens st ! i)\<rparr>, i + 1)"
  using assms
  by (auto simp: preprocess_token_def consume_def expectToken_def and_then_def Let_def)

lemma preprocess_token_emits_number_sign:
  assumes "dom preprocessors \<subseteq> PREPROCESSOR_DIRECTIVES"
    and "i < length (m_tokens st)"
    and "type (m_tokens st ! i) = NUMBER_SIGN"
  shows "preprocess_token preprocessors st i
           = Inr (st\<lparr>m_writer := m_writer st @ value (m_tokens st ! i)\<rparr>, i + 1)"
proof -
  have "NUMBER_SIGN \<notin> PREPROCESSOR_DIRECTIVES"
    by (simp add: PREPROCESSOR_DIRECTIVES_def)
  with assms(1) have "preprocessors NUMBER_SIGN = None" by blast
  with assms(2,3) show ?thesis by (intro preprocess_token_emits) simp_all
qed

end
